theory Spec2Isabelle
  imports Main
begin

section \<open>Conway's Game of Life: the grid, the transition and the main loop\<close>

text \<open>
  The two source files, \<^verbatim>\<open>main.py\<close> and \<^verbatim>\<open>app.py\<close>, share the functions
  \<^verbatim>\<open>gen\<close>, \<^verbatim>\<open>adjust_grid\<close>, \<^verbatim>\<open>get_neighbors\<close> and \<^verbatim>\<open>main\<close> line by line; they differ
  in the module constants \<^verbatim>\<open>WIDTH\<close>, \<^verbatim>\<open>HEIGHT\<close> and \<^verbatim>\<open>TILE_SIZE\<close> (fixed in
  \<^verbatim>\<open>main.py\<close>, chosen in a sidebar in \<^verbatim>\<open>app.py\<close>). The constants are a record that every
  function takes as its first argument.
\<close>

subsection \<open>Module constants\<close>

record config =
  WIDTH :: int
  HEIGHT :: int
  TILE_SIZE :: int

text \<open>
  \<^verbatim>\<open>GRID_WIDTH = WIDTH // TILE_SIZE\<close>; Python's floor division is \<open>div\<close> on \<open>int\<close>.
  \<^verbatim>\<open>TILE_SIZE\<close> is 20 or 40 in both files. With \<^verbatim>\<open>TILE_SIZE = 0\<close> the module would
  raise before \<^verbatim>\<open>main\<close> runs, where \<open>div\<close> gives 0; the theorems that need a grid assume
  \<open>0 < GRID_WIDTH\<close> and \<open>0 < GRID_HEIGHT\<close>, which excludes it.
\<close>

definition GRID_WIDTH :: "config \<Rightarrow> int" where
  "GRID_WIDTH cfg = WIDTH cfg div TILE_SIZE cfg"

definition GRID_HEIGHT :: "config \<Rightarrow> int" where
  "GRID_HEIGHT cfg = HEIGHT cfg div TILE_SIZE cfg"

text \<open>The constants of \<^verbatim>\<open>main.py\<close>: an 800 by 800 window of 20 pixel tiles.\<close>

definition main_config :: config where
  "main_config = \<lparr>WIDTH = 800, HEIGHT = 800, TILE_SIZE = 20\<rparr>"

definition update_freq :: int where
  "update_freq = 120"

subsection \<open>Python sets of coordinates\<close>

text \<open>
  A coordinate is a pair of Python integers. A Python \<^verbatim>\<open>set\<close> is a list without
  duplicates, in the order a \<^verbatim>\<open>for\<close> loop visits it; membership is membership in the
  list. The theorems speak about \<open>set xs\<close> and hold for every order.
\<close>

type_synonym coord = "int \<times> int"

type_synonym pyset = "coord list"

text \<open>\<^verbatim>\<open>s.add(x)\<close>\<close>

definition set_add :: "coord \<Rightarrow> pyset \<Rightarrow> pyset" where
  "set_add x s = (if x \<in> set s then s else s @ [x])"

text \<open>\<^verbatim>\<open>s.update(xs)\<close>\<close>

definition set_update :: "coord list \<Rightarrow> pyset \<Rightarrow> pyset" where
  "set_update xs s = fold set_add xs s"

subsection \<open>\<^verbatim>\<open>get_neighbors\<close>\<close>

text \<open>
  The inner loop over \<^verbatim>\<open>dy\<close>, for one \<^verbatim>\<open>dx\<close>: each \<^verbatim>\<open>continue\<close> contributes
  nothing to the list.
\<close>

definition neighbors_row :: "config \<Rightarrow> int \<Rightarrow> int \<Rightarrow> int \<Rightarrow> coord list" where
  "neighbors_row cfg x y dx =
     concat (map (\<lambda>dy.
       if y + dy < 0 \<or> y + dy > GRID_HEIGHT cfg then []
       else if dx = 0 \<and> dy = 0 then []
       else [(x + dx, y + dy)]) [-1, 0, 1])"

text \<open>The outer loop over \<^verbatim>\<open>dx\<close>: its \<^verbatim>\<open>continue\<close> skips the whole inner loop.\<close>

definition get_neighbors :: "config \<Rightarrow> coord \<Rightarrow> coord list" where
  "get_neighbors cfg pos =
     (case pos of (x, y) \<Rightarrow>
        concat (map (\<lambda>dx.
          if x + dx < 0 \<or> x + dx > GRID_WIDTH cfg then []
          else neighbors_row cfg x y dx) [-1, 0, 1]))"

subsection \<open>\<^verbatim>\<open>adjust_grid\<close>\<close>

text \<open>\<^verbatim>\<open>list(filter(lambda x: x in positions, get_neighbors(position)))\<close>\<close>

definition live_neighbors :: "config \<Rightarrow> pyset \<Rightarrow> coord \<Rightarrow> coord list" where
  "live_neighbors cfg positions position =
     filter (\<lambda>x. x \<in> set positions) (get_neighbors cfg position)"

text \<open>
  The body of the first loop, on the pair \<^verbatim>\<open>(all_neighbors, new_positions)\<close>:
  the neighbours go into \<^verbatim>\<open>all_neighbors\<close>, and the cell is kept when
  \<^verbatim>\<open>len(neighbors) in [2, 3]\<close>.
\<close>

definition survive_step :: "config \<Rightarrow> pyset \<Rightarrow> coord \<Rightarrow> pyset \<times> pyset \<Rightarrow> pyset \<times> pyset" where
  "survive_step cfg positions position acc =
     (case acc of (all_neighbors, new_positions) \<Rightarrow>
        let neighbors = get_neighbors cfg position;
            all_neighbors' = set_update neighbors all_neighbors;
            neighbors' = filter (\<lambda>x. x \<in> set positions) neighbors
        in (all_neighbors',
            if length neighbors' \<in> set [2, 3] then set_add position new_positions
            else new_positions))"

text \<open>The body of the second loop: the cell is added when \<^verbatim>\<open>len(neighbors) == 3\<close>.\<close>

definition birth_step :: "config \<Rightarrow> pyset \<Rightarrow> coord \<Rightarrow> pyset \<Rightarrow> pyset" where
  "birth_step cfg positions position new_positions =
     (let neighbors = get_neighbors cfg position;
          neighbors' = filter (\<lambda>x. x \<in> set positions) neighbors
      in if length neighbors' = 3 then set_add position new_positions
         else new_positions)"

definition adjust_grid :: "config \<Rightarrow> pyset \<Rightarrow> pyset" where
  "adjust_grid cfg positions =
     (case fold (survive_step cfg positions) positions ([], []) of
        (all_neighbors, new_positions) \<Rightarrow>
          fold (birth_step cfg positions) all_neighbors new_positions)"

text \<open>The number that both loops compare: \<^verbatim>\<open>len(neighbors)\<close> after the filter.\<close>

definition live_count :: "config \<Rightarrow> pyset \<Rightarrow> coord \<Rightarrow> nat" where
  "live_count cfg positions position = length (live_neighbors cfg positions position)"

subsection \<open>The toggle of a mouse press\<close>

text \<open>
  \<^verbatim>\<open>if pos in positions: positions.remove(pos) else: positions.add(pos)\<close>.
  The \<^verbatim>\<open>remove\<close> runs only on a member, so its \<^verbatim>\<open>KeyError\<close> cannot occur.
\<close>

definition toggle :: "coord \<Rightarrow> pyset \<Rightarrow> pyset" where
  "toggle pos positions =
     (if pos \<in> set positions then removeAll pos positions else set_add pos positions)"

subsection \<open>Random numbers and \<^verbatim>\<open>gen\<close>\<close>

datatype py_error = ValueError | ZeroDivisionError

text \<open>
  The state of Python's \<^verbatim>\<open>random\<close> module is the sequence of raw numbers it will
  still produce. \<^verbatim>\<open>random.randrange(start, stop)\<close> is a library function: it raises
  \<^verbatim>\<open>ValueError\<close> on an empty range and otherwise returns the element of
  \<^verbatim>\<open>range(start, stop)\<close> that the next raw number selects. Every element can be
  selected, and nothing is said about how likely each one is.
\<close>

type_synonym rng = "nat \<Rightarrow> nat"

definition randrange :: "int \<Rightarrow> int \<Rightarrow> rng \<Rightarrow> py_error + (int \<times> rng)" where
  "randrange start stop g =
     (if stop \<le> start then Inl ValueError
      else Inr (start + int (g 0) mod (stop - start), \<lambda>i. g (Suc i)))"

text \<open>
  The list comprehension of \<^verbatim>\<open>gen\<close>: each round draws a number below
  \<^verbatim>\<open>GRID_HEIGHT\<close>, then one below \<^verbatim>\<open>GRID_WIDTH\<close>, and pairs them in this order.
\<close>

fun gen_list :: "config \<Rightarrow> nat \<Rightarrow> rng \<Rightarrow> py_error + (coord list \<times> rng)" where
  "gen_list cfg 0 g = Inr ([], g)"
| "gen_list cfg (Suc n) g =
     (case randrange 0 (GRID_HEIGHT cfg) g of
        Inl e \<Rightarrow> Inl e
      | Inr (a, g1) \<Rightarrow>
          (case randrange 0 (GRID_WIDTH cfg) g1 of
             Inl e \<Rightarrow> Inl e
           | Inr (b, g2) \<Rightarrow>
               (case gen_list cfg n g2 of
                  Inl e \<Rightarrow> Inl e
                | Inr (xs, g3) \<Rightarrow> Inr ((a, b) # xs, g3))))"

text \<open>
  \<^verbatim>\<open>set([... for _ in range(num)])\<close>: \<^verbatim>\<open>range(num)\<close> is empty for a negative
  \<^verbatim>\<open>num\<close>, and \<^verbatim>\<open>set\<close> drops the duplicates.
\<close>

definition gen :: "config \<Rightarrow> int \<Rightarrow> rng \<Rightarrow> py_error + (pyset \<times> rng)" where
  "gen cfg num g =
     (case gen_list cfg (nat num) g of
        Inl e \<Rightarrow> Inl e
      | Inr (xs, g') \<Rightarrow> Inr (remdups xs, g'))"

subsection \<open>The main loop\<close>

text \<open>
  The local variables of \<^verbatim>\<open>main\<close>, and the state of the random module that the
  \<^verbatim>\<open>g\<close> key reads.
\<close>

record state =
  running :: bool
  playing :: bool
  count :: int
  positions :: pyset
  rng_state :: rng

datatype key = K_SPACE | K_c | K_g | K_other

text \<open>
  A mouse press carries the pixel that \<^verbatim>\<open>pygame.mouse.get_pos()\<close> returns when the
  press is handled.
\<close>

datatype event = QUIT | MOUSEBUTTONDOWN int int | KEYDOWN key | OTHER_EVENT

text \<open>The state \<^verbatim>\<open>main\<close> starts from.\<close>

definition initial_state :: "rng \<Rightarrow> state" where
  "initial_state g =
     \<lparr>running = True, playing = False, count = 0, positions = [], rng_state = g\<rparr>"

text \<open>
  The start of an iteration, after \<^verbatim>\<open>clock.tick(FPS)\<close>: the counter goes up while
  playing, and at \<^verbatim>\<open>update_freq\<close> it is reset and \<^verbatim>\<open>adjust_grid\<close> replaces the
  positions. The flag tells whether \<^verbatim>\<open>adjust_grid\<close> was called.
\<close>

definition main_tick :: "config \<Rightarrow> state \<Rightarrow> state \<times> bool" where
  "main_tick cfg s =
     (let s1 = (if playing s then s\<lparr>count := count s + 1\<rparr> else s)
      in if count s1 \<ge> update_freq
         then (s1\<lparr>count := 0, positions := adjust_grid cfg (positions s1)\<rparr>, True)
         else (s1, False))"

text \<open>
  One event of \<^verbatim>\<open>pygame.event.get()\<close>. The floor division by \<^verbatim>\<open>TILE_SIZE\<close>
  raises on zero; \<^verbatim>\<open>randrange\<close> raises on an empty range.
\<close>

definition main_event :: "config \<Rightarrow> event \<Rightarrow> state \<Rightarrow> py_error + state" where
  "main_event cfg ev s =
     (case ev of
        QUIT \<Rightarrow> Inr (s\<lparr>running := False\<rparr>)
      | MOUSEBUTTONDOWN x y \<Rightarrow>
          if TILE_SIZE cfg = 0 then Inl ZeroDivisionError
          else
            let col = x div TILE_SIZE cfg;
                row = y div TILE_SIZE cfg;
                pos = (col, row)
            in Inr (s\<lparr>positions := toggle pos (positions s)\<rparr>)
      | KEYDOWN k \<Rightarrow>
          (case k of
             K_SPACE \<Rightarrow> Inr (s\<lparr>playing := \<not> playing s\<rparr>)
           | K_c \<Rightarrow> Inr (s\<lparr>positions := [], playing := False, count := 0\<rparr>)
           | K_g \<Rightarrow>
               (case randrange 4 10 (rng_state s) of
                  Inl e \<Rightarrow> Inl e
                | Inr (n, g1) \<Rightarrow>
                    (case gen cfg (n * GRID_WIDTH cfg) g1 of
                       Inl e \<Rightarrow> Inl e
                     | Inr (ps, g2) \<Rightarrow> Inr (s\<lparr>positions := ps, rng_state := g2\<rparr>)))
           | K_other \<Rightarrow> Inr s)
      | OTHER_EVENT \<Rightarrow> Inr s)"

text \<open>The \<^verbatim>\<open>for event in pygame.event.get()\<close> loop; an exception ends it.\<close>

fun main_events :: "config \<Rightarrow> event list \<Rightarrow> state \<Rightarrow> py_error + state" where
  "main_events cfg [] s = Inr s"
| "main_events cfg (ev # evs) s =
     (case main_event cfg ev s of
        Inl e \<Rightarrow> Inl e
      | Inr s' \<Rightarrow> main_events cfg evs s')"

text \<open>One iteration of the \<^verbatim>\<open>while running\<close> loop, on the events of its frame.\<close>

definition main_iteration :: "config \<Rightarrow> state \<Rightarrow> event list \<Rightarrow> py_error + (state \<times> bool)" where
  "main_iteration cfg s evs =
     (case main_tick cfg s of
        (s1, called) \<Rightarrow>
          (case main_events cfg evs s1 of
             Inl e \<Rightarrow> Inl e
           | Inr s2 \<Rightarrow> Inr (s2, called)))"

text \<open>
  The loop on the frames it is given, one list of events per frame, with the number of
  calls of \<^verbatim>\<open>adjust_grid\<close> it made. The loop ends when \<^verbatim>\<open>running\<close> is false at
  the start of an iteration.
\<close>

fun main_loop :: "config \<Rightarrow> state \<Rightarrow> event list list \<Rightarrow> py_error + (state \<times> nat)" where
  "main_loop cfg s [] = Inr (s, 0)"
| "main_loop cfg s (evs # frames) =
     (if \<not> running s then Inr (s, 0)
      else
        (case main_iteration cfg s evs of
           Inl e \<Rightarrow> Inl e
         | Inr (s', called) \<Rightarrow>
             (case main_loop cfg s' frames of
                Inl e \<Rightarrow> Inl e
              | Inr (s'', n) \<Rightarrow> Inr (s'', (if called then 1 else 0) + n))))"

section \<open>Properties\<close>

subsection \<open>Python sets\<close>

lemma set_set_add: "set (set_add x s) = insert x (set s)"
  by (auto simp: set_add_def)

lemma set_set_update: "set (set_update xs s) = set xs \<union> set s"
  unfolding set_update_def by (induction xs arbitrary: s) (auto simp: set_set_add)

lemma distinct_set_add: "distinct s \<Longrightarrow> distinct (set_add x s)"
  by (auto simp: set_add_def)

lemma distinct_set_update: "distinct s \<Longrightarrow> distinct (set_update xs s)"
  unfolding set_update_def by (induction xs arbitrary: s) (simp_all add: distinct_set_add)

lemma distinct_toggle: "distinct ps \<Longrightarrow> distinct (toggle c ps)"
  by (simp add: toggle_def distinct_set_add distinct_removeAll)

subsection \<open>The neighbours of a cell\<close>

lemma mem_neighbors_row:
  "(a, b) \<in> set (neighbors_row cfg x y dx) \<longleftrightarrow>
     a = x + dx \<and> (b = y - 1 \<or> b = y \<or> b = y + 1) \<and> \<not> (dx = 0 \<and> b = y) \<and>
     0 \<le> b \<and> b \<le> GRID_HEIGHT cfg"
proof -
  have "(a, b) \<in> set (neighbors_row cfg x y dx) \<longleftrightarrow>
        (0 \<le> y - 1 \<and> y - 1 \<le> GRID_HEIGHT cfg \<and> a = x + dx \<and> b = y - 1) \<or>
        (0 \<le> y \<and> y \<le> GRID_HEIGHT cfg \<and> dx \<noteq> 0 \<and> a = x + dx \<and> b = y) \<or>
        (0 \<le> y + 1 \<and> y + 1 \<le> GRID_HEIGHT cfg \<and> a = x + dx \<and> b = y + 1)"
    unfolding neighbors_row_def by (simp add: not_less not_le)
  also have "\<dots> \<longleftrightarrow>
     a = x + dx \<and> (b = y - 1 \<or> b = y \<or> b = y + 1) \<and> \<not> (dx = 0 \<and> b = y) \<and>
     0 \<le> b \<and> b \<le> GRID_HEIGHT cfg"
    by auto
  finally show ?thesis .
qed

lemma get_neighbors_rows:
  "get_neighbors cfg (x, y) =
     concat (map (\<lambda>dx.
       if x + dx < 0 \<or> x + dx > GRID_WIDTH cfg then []
       else neighbors_row cfg x y dx) [-1, 0, 1])"
  unfolding get_neighbors_def by simp

text \<open>A coordinate is a neighbour when it is one step away, is not the cell, and is in range.\<close>

lemma mem_get_neighbors:
  "(a, b) \<in> set (get_neighbors cfg (x, y)) \<longleftrightarrow>
     (a = x - 1 \<or> a = x \<or> a = x + 1) \<and> (b = y - 1 \<or> b = y \<or> b = y + 1) \<and>
     \<not> (a = x \<and> b = y) \<and>
     0 \<le> a \<and> a \<le> GRID_WIDTH cfg \<and> 0 \<le> b \<and> b \<le> GRID_HEIGHT cfg"
proof -
  have "(a, b) \<in> set (get_neighbors cfg (x, y)) \<longleftrightarrow>
        (0 \<le> x - 1 \<and> x - 1 \<le> GRID_WIDTH cfg \<and> (a, b) \<in> set (neighbors_row cfg x y (-1))) \<or>
        (0 \<le> x \<and> x \<le> GRID_WIDTH cfg \<and> (a, b) \<in> set (neighbors_row cfg x y 0)) \<or>
        (0 \<le> x + 1 \<and> x + 1 \<le> GRID_WIDTH cfg \<and> (a, b) \<in> set (neighbors_row cfg x y 1))"
    unfolding get_neighbors_rows by (simp add: not_less not_le)
  also have "\<dots> \<longleftrightarrow>
     (a = x - 1 \<or> a = x \<or> a = x + 1) \<and> (b = y - 1 \<or> b = y \<or> b = y + 1) \<and>
     \<not> (a = x \<and> b = y) \<and>
     0 \<le> a \<and> a \<le> GRID_WIDTH cfg \<and> 0 \<le> b \<and> b \<le> GRID_HEIGHT cfg"
    unfolding mem_neighbors_row by auto
  finally show ?thesis .
qed

lemma distinct_neighbors_row: "distinct (neighbors_row cfg x y dx)"
  unfolding neighbors_row_def by simp

lemma distinct_get_neighbors: "distinct (get_neighbors cfg (x, y))"
  unfolding get_neighbors_rows
  by (simp add: mem_neighbors_row disjoint_iff distinct_neighbors_row)

lemma get_neighbors_interior:
  "0 < x \<Longrightarrow> x < GRID_WIDTH cfg \<Longrightarrow> 0 < y \<Longrightarrow> y < GRID_HEIGHT cfg \<Longrightarrow>
   get_neighbors cfg (x, y) =
     [(x - 1, y - 1), (x - 1, y), (x - 1, y + 1), (x, y - 1), (x, y + 1),
      (x + 1, y - 1), (x + 1, y), (x + 1, y + 1)]"
  unfolding get_neighbors_def neighbors_row_def by simp

lemma set_get_neighbors:
  "set (get_neighbors cfg (x, y)) =
     {(x + dx, y + dy) | dx dy.
        dx \<in> {-1, 0, 1} \<and> dy \<in> {-1, 0, 1} \<and> (dx, dy) \<noteq> (0, 0) \<and>
        0 \<le> x + dx \<and> x + dx \<le> GRID_WIDTH cfg \<and>
        0 \<le> y + dy \<and> y + dy \<le> GRID_HEIGHT cfg}"
  (is "?L = ?R")
proof (rule set_eqI)
  fix p :: coord
  obtain a b where p: "p = (a, b)" by (cases p)
  have "p \<in> ?R \<longleftrightarrow> (\<exists>dx dy. a = x + dx \<and> b = y + dy \<and>
        dx \<in> {-1, 0, 1} \<and> dy \<in> {-1, 0, 1} \<and> (dx, dy) \<noteq> (0, 0) \<and>
        0 \<le> x + dx \<and> x + dx \<le> GRID_WIDTH cfg \<and>
        0 \<le> y + dy \<and> y + dy \<le> GRID_HEIGHT cfg)"
    unfolding p by simp
  also have "\<dots> \<longleftrightarrow> (a = x - 1 \<or> a = x \<or> a = x + 1) \<and> (b = y - 1 \<or> b = y \<or> b = y + 1) \<and>
     \<not> (a = x \<and> b = y) \<and>
     0 \<le> a \<and> a \<le> GRID_WIDTH cfg \<and> 0 \<le> b \<and> b \<le> GRID_HEIGHT cfg"
  proof
    assume "\<exists>dx dy. a = x + dx \<and> b = y + dy \<and>
        dx \<in> {-1, 0, 1} \<and> dy \<in> {-1, 0, 1} \<and> (dx, dy) \<noteq> (0, 0) \<and>
        0 \<le> x + dx \<and> x + dx \<le> GRID_WIDTH cfg \<and>
        0 \<le> y + dy \<and> y + dy \<le> GRID_HEIGHT cfg"
    then obtain dx dy where d: "a = x + dx" "b = y + dy" "dx \<in> {-1, 0, 1}" "dy \<in> {-1, 0, 1}"
      "(dx, dy) \<noteq> (0, 0)" "0 \<le> x + dx" "x + dx \<le> GRID_WIDTH cfg"
      "0 \<le> y + dy" "y + dy \<le> GRID_HEIGHT cfg" by blast
    from d(3) have "a = x - 1 \<or> a = x \<or> a = x + 1" unfolding d(1) by auto
    moreover from d(4) have "b = y - 1 \<or> b = y \<or> b = y + 1" unfolding d(2) by auto
    moreover from d(5) have "\<not> (a = x \<and> b = y)" unfolding d(1,2) by auto
    ultimately show "(a = x - 1 \<or> a = x \<or> a = x + 1) \<and> (b = y - 1 \<or> b = y \<or> b = y + 1) \<and>
     \<not> (a = x \<and> b = y) \<and>
     0 \<le> a \<and> a \<le> GRID_WIDTH cfg \<and> 0 \<le> b \<and> b \<le> GRID_HEIGHT cfg"
      using d(6-9) unfolding d(1,2) by blast
  next
    assume r: "(a = x - 1 \<or> a = x \<or> a = x + 1) \<and> (b = y - 1 \<or> b = y \<or> b = y + 1) \<and>
     \<not> (a = x \<and> b = y) \<and>
     0 \<le> a \<and> a \<le> GRID_WIDTH cfg \<and> 0 \<le> b \<and> b \<le> GRID_HEIGHT cfg"
    have "a = x + (a - x) \<and> b = y + (b - y) \<and>
        (a - x) \<in> {-1, 0, 1} \<and> (b - y) \<in> {-1, 0, 1} \<and> (a - x, b - y) \<noteq> (0, 0) \<and>
        0 \<le> x + (a - x) \<and> x + (a - x) \<le> GRID_WIDTH cfg \<and>
        0 \<le> y + (b - y) \<and> y + (b - y) \<le> GRID_HEIGHT cfg"
      using r by auto
    then show "\<exists>dx dy. a = x + dx \<and> b = y + dy \<and>
        dx \<in> {-1, 0, 1} \<and> dy \<in> {-1, 0, 1} \<and> (dx, dy) \<noteq> (0, 0) \<and>
        0 \<le> x + dx \<and> x + dx \<le> GRID_WIDTH cfg \<and>
        0 \<le> y + dy \<and> y + dy \<le> GRID_HEIGHT cfg"
      by blast
  qed
  also have "\<dots> \<longleftrightarrow> p \<in> ?L"
    unfolding p mem_get_neighbors ..
  finally show "p \<in> ?L \<longleftrightarrow> p \<in> ?R" ..
qed

text \<open>Within the range that \<^verbatim>\<open>get_neighbors\<close> admits, being a neighbour is symmetric.\<close>

lemma get_neighbors_sym:
  assumes "q \<in> set (get_neighbors cfg c)"
    and "0 \<le> fst c" "fst c \<le> GRID_WIDTH cfg" "0 \<le> snd c" "snd c \<le> GRID_HEIGHT cfg"
  shows "c \<in> set (get_neighbors cfg q)"
proof -
  obtain a b where q: "q = (a, b)" by (cases q)
  obtain x y where c: "c = (x, y)" by (cases c)
  show ?thesis
    using assms unfolding q c mem_get_neighbors by auto
qed

lemma get_neighbors_bounds:
  assumes "q \<in> set (get_neighbors cfg c)"
  shows "0 \<le> fst q \<and> fst q \<le> GRID_WIDTH cfg \<and> 0 \<le> snd q \<and> snd q \<le> GRID_HEIGHT cfg"
proof -
  obtain a b where q: "q = (a, b)" by (cases q)
  obtain x y where c: "c = (x, y)" by (cases c)
  show ?thesis
    using assms unfolding q c mem_get_neighbors by auto
qed

subsection \<open>The two loops of \<^verbatim>\<open>adjust_grid\<close>\<close>

lemma fst_fold_survive:
  "set (fst (fold (survive_step cfg ps) qs (an, np))) =
     set an \<union> (\<Union>q\<in>set qs. set (get_neighbors cfg q))"
  by (induction qs arbitrary: an np) (auto simp: survive_step_def Let_def set_set_update)

lemma snd_fold_survive:
  "set (snd (fold (survive_step cfg ps) qs (an, np))) =
     set np \<union> {q \<in> set qs. live_count cfg ps q = 2 \<or> live_count cfg ps q = 3}"
  by (induction qs arbitrary: an np)
     (auto simp: survive_step_def Let_def set_set_add live_count_def live_neighbors_def)

lemma fold_birth:
  "set (fold (birth_step cfg ps) qs np) =
     set np \<union> {q \<in> set qs. live_count cfg ps q = 3}"
  by (induction qs arbitrary: np)
     (auto simp: birth_step_def Let_def set_set_add live_count_def live_neighbors_def)

text \<open>
  The cells of the next generation: the members with two or three live neighbours, and
  the neighbours of members that have three.
\<close>

lemma set_adjust_grid:
  "set (adjust_grid cfg ps) =
     {q \<in> set ps. live_count cfg ps q = 2 \<or> live_count cfg ps q = 3} \<union>
     {q \<in> (\<Union>p\<in>set ps. set (get_neighbors cfg p)). live_count cfg ps q = 3}"
proof -
  obtain an np where f: "fold (survive_step cfg ps) ps ([], []) = (an, np)"
    by (cases "fold (survive_step cfg ps) ps ([], [])")
  have a: "set an = (\<Union>p\<in>set ps. set (get_neighbors cfg p))"
    using fst_fold_survive [of cfg ps ps "[]" "[]"] by (simp add: f)
  have n: "set np = {q \<in> set ps. live_count cfg ps q = 2 \<or> live_count cfg ps q = 3}"
    using snd_fold_survive [of cfg ps ps "[]" "[]"] by (simp add: f)
  show ?thesis
    by (simp add: adjust_grid_def f fold_birth a n)
qed

text \<open>The result has no duplicates: it is a set again.\<close>

lemma distinct_fold_survive:
  "distinct an \<Longrightarrow> distinct np \<Longrightarrow>
   distinct (fst (fold (survive_step cfg ps) qs (an, np))) \<and>
   distinct (snd (fold (survive_step cfg ps) qs (an, np)))"
  by (induction qs arbitrary: an np)
     (simp_all add: survive_step_def Let_def distinct_set_update distinct_set_add)

lemma distinct_fold_birth:
  "distinct np \<Longrightarrow> distinct (fold (birth_step cfg ps) qs np)"
  by (induction qs arbitrary: np) (simp_all add: birth_step_def Let_def distinct_set_add)

lemma distinct_adjust_grid: "distinct (adjust_grid cfg ps)"
proof -
  obtain an np where f: "fold (survive_step cfg ps) ps ([], []) = (an, np)"
    by (cases "fold (survive_step cfg ps) ps ([], [])")
  have "distinct np"
    using distinct_fold_survive [of "[]" "[]" cfg ps ps] by (simp add: f)
  then show ?thesis
    by (simp add: adjust_grid_def f distinct_fold_birth)
qed

text \<open>Both loops test membership only, so the order of the set does not matter.\<close>

lemma live_count_cong: "set ps = set qs \<Longrightarrow> live_count cfg ps c = live_count cfg qs c"
  by (simp add: live_count_def live_neighbors_def)

lemma set_adjust_grid_cong:
  "set ps = set qs \<Longrightarrow> set (adjust_grid cfg ps) = set (adjust_grid cfg qs)"
  by (simp add: set_adjust_grid live_count_cong [of ps qs])

lemma adjust_grid_Nil: "adjust_grid cfg [] = []"
  by (simp add: adjust_grid_def)

text \<open>
  The two generations of the blinker, on any grid of at least five cells each way. The
  lists are in the order the loops add the cells.
\<close>

lemma blinker_horizontal:
  assumes "5 \<le> GRID_WIDTH cfg" "5 \<le> GRID_HEIGHT cfg"
  shows "adjust_grid cfg [(1, 2), (2, 2), (3, 2)] = [(2, 2), (2, 1), (2, 3)]"
  using assms
  by (simp add: adjust_grid_def survive_step_def birth_step_def get_neighbors_def
      neighbors_row_def set_update_def set_add_def Let_def)

lemma blinker_vertical:
  assumes "5 \<le> GRID_WIDTH cfg" "5 \<le> GRID_HEIGHT cfg"
  shows "adjust_grid cfg [(2, 1), (2, 2), (2, 3)] = [(2, 2), (1, 2), (3, 2)]"
  using assms
  by (simp add: adjust_grid_def survive_step_def birth_step_def get_neighbors_def
      neighbors_row_def set_update_def set_add_def Let_def)

subsection \<open>Random draws\<close>

text \<open>On a range that is not empty, \<^verbatim>\<open>randrange\<close> returns one of its elements.\<close>

lemma randrange_ok:
  assumes "start < stop"
  shows "\<exists>v g'. randrange start stop g = Inr (v, g') \<and> start \<le> v \<and> v < stop"
proof -
  have "0 < stop - start" using assms by simp
  then have "0 \<le> int (g 0) mod (stop - start) \<and> int (g 0) mod (stop - start) < stop - start"
    by simp
  with assms show ?thesis by (simp add: randrange_def)
qed

text \<open>
  On a grid with at least one column and one row no draw of \<^verbatim>\<open>gen\<close> raises, and each
  pair it draws is in range.
\<close>

lemma gen_list_ok:
  assumes "0 < GRID_WIDTH cfg" and "0 < GRID_HEIGHT cfg"
  shows "\<exists>xs g'. gen_list cfg n g = Inr (xs, g') \<and> length xs = n \<and>
           (\<forall>(a, b) \<in> set xs. 0 \<le> a \<and> a < GRID_HEIGHT cfg \<and> 0 \<le> b \<and> b < GRID_WIDTH cfg)"
proof (induction n arbitrary: g)
  case 0
  show ?case by simp
next
  case (Suc n)
  from randrange_ok [OF assms(2), of g] obtain a g1
    where a: "randrange 0 (GRID_HEIGHT cfg) g = Inr (a, g1)" "0 \<le> a" "a < GRID_HEIGHT cfg"
    by blast
  from randrange_ok [OF assms(1), of g1] obtain b g2
    where b: "randrange 0 (GRID_WIDTH cfg) g1 = Inr (b, g2)" "0 \<le> b" "b < GRID_WIDTH cfg"
    by blast
  from Suc.IH [of g2] obtain xs g3
    where r: "gen_list cfg n g2 = Inr (xs, g3)" "length xs = n"
      "\<forall>(a, b) \<in> set xs. 0 \<le> a \<and> a < GRID_HEIGHT cfg \<and> 0 \<le> b \<and> b < GRID_WIDTH cfg"
    by blast
  have "gen_list cfg (Suc n) g = Inr ((a, b) # xs, g3)"
    by (simp add: a(1) b(1) r(1))
  moreover have "length ((a, b) # xs) = Suc n" by (simp add: r(2))
  moreover have "\<forall>(a, b) \<in> set ((a, b) # xs).
      0 \<le> a \<and> a < GRID_HEIGHT cfg \<and> 0 \<le> b \<and> b < GRID_WIDTH cfg"
    using a(2,3) b(2,3) r(3) by simp
  ultimately show ?case by blast
qed

lemma gen_ok:
  assumes "0 < GRID_WIDTH cfg" and "0 < GRID_HEIGHT cfg"
  shows "\<exists>ps g'. gen cfg num g = Inr (ps, g') \<and> distinct ps \<and> length ps \<le> nat num \<and>
           (\<forall>(a, b) \<in> set ps. 0 \<le> a \<and> a < GRID_HEIGHT cfg \<and> 0 \<le> b \<and> b < GRID_WIDTH cfg)"
proof -
  from gen_list_ok [OF assms, of "nat num" g] obtain xs g'
    where r: "gen_list cfg (nat num) g = Inr (xs, g')" "length xs = nat num"
      "\<forall>(a, b) \<in> set xs. 0 \<le> a \<and> a < GRID_HEIGHT cfg \<and> 0 \<le> b \<and> b < GRID_WIDTH cfg"
    by blast
  have "gen cfg num g = Inr (remdups xs, g')" by (simp add: gen_def r(1))
  moreover have "length (remdups xs) \<le> nat num"
    using length_remdups_leq [of xs] by (simp add: r(2))
  moreover have "\<forall>(a, b) \<in> set (remdups xs).
      0 \<le> a \<and> a < GRID_HEIGHT cfg \<and> 0 \<le> b \<and> b < GRID_WIDTH cfg"
    using r(3) by simp
  ultimately show ?thesis using distinct_remdups [of xs] by blast
qed

subsection \<open>The clock of the main loop\<close>

text \<open>The three cases of the start of an iteration.\<close>

lemma main_tick_paused:
  "\<not> playing s \<Longrightarrow> count s < update_freq \<Longrightarrow> main_tick cfg s = (s, False)"
  by (simp add: main_tick_def)

lemma main_tick_counting:
  "playing s \<Longrightarrow> count s + 1 < update_freq \<Longrightarrow>
   main_tick cfg s = (s\<lparr>count := count s + 1\<rparr>, False)"
  by (simp add: main_tick_def)

lemma main_tick_advance:
  "playing s \<Longrightarrow> count s + 1 \<ge> update_freq \<Longrightarrow>
   main_tick cfg s = (s\<lparr>count := 0, positions := adjust_grid cfg (positions s)\<rparr>, True)"
  by (simp add: main_tick_def)

lemma main_tick_count:
  assumes "0 \<le> count s" and "count s < update_freq" and "main_tick cfg s = (s1, called)"
  shows "0 \<le> count s1 \<and> count s1 < update_freq"
  using assms by (auto simp: main_tick_def update_freq_def Let_def split: if_splits)

text \<open>Frames without events: a paused loop stands still, a playing one counts.\<close>

lemma main_loop_paused:
  "\<not> playing s \<Longrightarrow> count s < update_freq \<Longrightarrow> main_loop cfg s (replicate N []) = Inr (s, 0)"
  by (induction N) (simp_all add: main_iteration_def main_tick_paused)

lemma main_loop_counting:
  "running s \<Longrightarrow> playing s \<Longrightarrow> count s + int n < update_freq \<Longrightarrow>
   main_loop cfg s (replicate n []) = Inr (s\<lparr>count := count s + int n\<rparr>, 0)"
proof (induction n arbitrary: s)
  case 0
  show ?case by simp
next
  case (Suc n)
  let ?s1 = "s\<lparr>count := count s + 1\<rparr>"
  have t: "main_tick cfg s = (?s1, False)"
    using Suc.prems by (intro main_tick_counting) simp_all
  have "main_loop cfg ?s1 (replicate n []) = Inr (?s1\<lparr>count := count ?s1 + int n\<rparr>, 0)"
    using Suc.prems by (intro Suc.IH) simp_all
  then show ?case
    using Suc.prems(1) by (simp add: main_iteration_def t add.assoc)
qed

text \<open>The loop on two runs of frames, one after the other.\<close>

lemma main_loop_append:
  "main_loop cfg s (xs @ ys) =
     (case main_loop cfg s xs of
        Inl e \<Rightarrow> Inl e
      | Inr (s', n) \<Rightarrow>
          (case main_loop cfg s' ys of
             Inl e \<Rightarrow> Inl e
           | Inr (s'', m) \<Rightarrow> Inr (s'', n + m)))"
proof (induction xs arbitrary: s)
  case Nil
  show ?case by (simp split: sum.splits)
next
  case (Cons evs xs)
  show ?case
  proof (cases "running s")
    case False
    then show ?thesis by (cases ys) simp_all
  next
    case True
    then show ?thesis
      by (simp add: Cons.IH split: sum.splits prod.splits)
  qed
qed

text \<open>From zero, the call comes on frame \<^verbatim>\<open>update_freq\<close> and the counter restarts.\<close>

lemma main_loop_advance:
  assumes "running s" and "playing s" and "count s = 0"
  shows "main_loop cfg s (replicate (nat update_freq) []) =
           Inr (s\<lparr>count := 0, positions := adjust_grid cfg (positions s)\<rparr>, 1)"
proof -
  let ?s1 = "s\<lparr>count := 119\<rparr>"
  let ?s2 = "?s1\<lparr>count := 0, positions := adjust_grid cfg (positions ?s1)\<rparr>"
  have f: "main_loop cfg s (replicate 119 []) = Inr (?s1, 0)"
    using main_loop_counting [of s 119 cfg] assms by (simp add: update_freq_def)
  have t: "main_tick cfg ?s1 = (?s2, True)"
    using assms by (intro main_tick_advance) (simp_all add: update_freq_def)
  have l: "main_loop cfg ?s1 [[]] = Inr (?s2, 1)"
    using assms by (simp add: main_iteration_def t)
  have "replicate (nat update_freq) ([] :: event list) = replicate 119 [] @ [[]]"
    unfolding update_freq_def by (simp add: replicate_append_same eval_nat_numeral)
  then have "main_loop cfg s (replicate (nat update_freq) []) =
        (case main_loop cfg s (replicate 119 []) of
           Inl e \<Rightarrow> Inl e
         | Inr (s', n) \<Rightarrow>
             (case main_loop cfg s' [[]] of
                Inl e \<Rightarrow> Inl e
              | Inr (s'', m) \<Rightarrow> Inr (s'', n + m)))"
    by (simp only: main_loop_append)
  also have "\<dots> = Inr (?s2, 1)"
    unfolding f by (simp add: l del: main_loop.simps)
  finally show ?thesis by simp
qed

subsection \<open>The events of the main loop\<close>

lemma TILE_SIZE_nonzero: "0 < GRID_WIDTH cfg \<Longrightarrow> TILE_SIZE cfg \<noteq> 0"
  by (auto simp: GRID_WIDTH_def)

text \<open>On a grid with at least one column and one row no event raises.\<close>

lemma main_event_ok:
  assumes "0 < GRID_WIDTH cfg" and "0 < GRID_HEIGHT cfg"
  shows "\<exists>s'. main_event cfg ev s = Inr s'"
proof (cases ev)
  case (KEYDOWN k)
  show ?thesis
  proof (cases k)
    case K_g
    have "(4::int) < 10" by simp
    from randrange_ok [OF this, of "rng_state s"] obtain n g1
      where n: "randrange 4 10 (rng_state s) = Inr (n, g1)" by blast
    from gen_ok [OF assms, of "n * GRID_WIDTH cfg" g1] obtain ps g2
      where "gen cfg (n * GRID_WIDTH cfg) g1 = Inr (ps, g2)" by blast
    then show ?thesis by (simp add: KEYDOWN K_g main_event_def n)
  qed (simp_all add: KEYDOWN main_event_def)
qed (simp_all add: main_event_def TILE_SIZE_nonzero [OF assms(1)] Let_def)

text \<open>An event leaves the counter as it is or sets it to zero.\<close>

lemma main_event_count:
  assumes "main_event cfg ev s = Inr s'"
  shows "count s' = count s \<or> count s' = 0"
proof (cases ev)
  case (KEYDOWN k)
  with assms show ?thesis
    by (cases k) (auto simp: main_event_def split: sum.splits)
qed (use assms in \<open>auto simp: main_event_def Let_def split: if_splits\<close>)

lemma main_events_ok:
  assumes "0 < GRID_WIDTH cfg" and "0 < GRID_HEIGHT cfg"
  shows "\<exists>s'. main_events cfg evs s = Inr s'"
proof (induction evs arbitrary: s)
  case Nil
  show ?case by simp
next
  case (Cons ev evs)
  from main_event_ok [OF assms, of ev s] obtain s1 where "main_event cfg ev s = Inr s1" ..
  with Cons.IH [of s1] show ?case by simp
qed

lemma main_events_count:
  "main_events cfg evs s = Inr s' \<Longrightarrow> count s' = count s \<or> count s' = 0"
proof (induction evs arbitrary: s)
  case Nil
  then show ?case by simp
next
  case (Cons ev evs)
  from Cons.prems obtain s1 where s1: "main_event cfg ev s = Inr s1" "main_events cfg evs s1 = Inr s'"
    by (auto split: sum.splits)
  from main_event_count [OF s1(1)] Cons.IH [OF s1(2)] show ?case by auto
qed

lemma main_iteration_ok:
  assumes "0 < GRID_WIDTH cfg" and "0 < GRID_HEIGHT cfg"
  shows "\<exists>r. main_iteration cfg s evs = Inr r"
proof -
  obtain s1 called where t: "main_tick cfg s = (s1, called)" by (cases "main_tick cfg s")
  from main_events_ok [OF assms, of evs s1] obtain s2 where "main_events cfg evs s1 = Inr s2" ..
  then show ?thesis by (simp add: main_iteration_def t)
qed

lemma main_iteration_count:
  assumes "0 \<le> count s" and "count s < update_freq"
    and "main_iteration cfg s evs = Inr (s', called)"
  shows "0 \<le> count s' \<and> count s' < update_freq"
proof -
  obtain s1 c1 where t: "main_tick cfg s = (s1, c1)" by (cases "main_tick cfg s")
  from assms(3) have e: "main_events cfg evs s1 = Inr s'"
    by (auto simp: main_iteration_def t split: sum.splits)
  from main_tick_count [OF assms(1,2) t] main_events_count [OF e]
  show ?thesis by (auto simp: update_freq_def)
qed

text \<open>No call while the counter cannot reach the threshold within the frames left.\<close>

lemma main_loop_no_call:
  assumes "0 < GRID_WIDTH cfg" and "0 < GRID_HEIGHT cfg"
  shows "0 \<le> count s \<Longrightarrow>
         (if playing s then count s + int (length frames) < update_freq
          else count s + int (length frames) \<le> update_freq) \<Longrightarrow>
         \<exists>s'. main_loop cfg s frames = Inr (s', 0)"
proof (induction frames arbitrary: s)
  case Nil
  show ?case by simp
next
  case (Cons evs frames)
  show ?case
  proof (cases "running s")
    case False
    then show ?thesis by simp
  next
    case True
    have t: "main_tick cfg s = ((if playing s then s\<lparr>count := count s + 1\<rparr> else s), False)"
      using Cons.prems by (auto simp: main_tick_def split: if_splits)
    let ?s1 = "if playing s then s\<lparr>count := count s + 1\<rparr> else s"
    have c1: "0 \<le> count ?s1" "count ?s1 + int (length frames) < update_freq"
      using Cons.prems by (auto split: if_splits)
    from main_events_ok [OF assms, of evs ?s1] obtain s2
      where e: "main_events cfg evs ?s1 = Inr s2" ..
    from main_events_count [OF e] c1
    have c2: "0 \<le> count s2" "count s2 + int (length frames) < update_freq"
      by auto
    then have "if playing s2 then count s2 + int (length frames) < update_freq
               else count s2 + int (length frames) \<le> update_freq"
      by simp
    from Cons.IH [OF c2(1) this] obtain s' where "main_loop cfg s2 frames = Inr (s', 0)" ..
    with True show ?thesis
      by (simp add: main_iteration_def t e del: main_events.simps)
  qed
qed

text \<open>
  Only the space key starts the clock: without it a paused loop stays paused, whatever
  else happens.
\<close>

lemma main_event_paused:
  assumes "ev \<noteq> KEYDOWN K_SPACE" and "\<not> playing s" and "main_event cfg ev s = Inr s'"
  shows "\<not> playing s'"
proof (cases ev)
  case (KEYDOWN k)
  with assms show ?thesis
    by (cases k) (auto simp: main_event_def split: sum.splits)
qed (use assms in \<open>auto simp: main_event_def Let_def split: if_splits\<close>)

lemma main_events_paused:
  "KEYDOWN K_SPACE \<notin> set evs \<Longrightarrow> \<not> playing s \<Longrightarrow> main_events cfg evs s = Inr s' \<Longrightarrow>
   \<not> playing s'"
proof (induction evs arbitrary: s)
  case Nil
  then show ?case by simp
next
  case (Cons ev evs)
  from Cons.prems(3) obtain s1
    where s1: "main_event cfg ev s = Inr s1" "main_events cfg evs s1 = Inr s'"
    by (auto split: sum.splits)
  from Cons.prems(1) have "ev \<noteq> KEYDOWN K_SPACE" "KEYDOWN K_SPACE \<notin> set evs" by auto
  from main_event_paused [OF this(1) Cons.prems(2) s1(1)] Cons.IH [OF this(2) _ s1(2)]
  show ?case by simp
qed

lemma main_loop_stays_paused:
  assumes "0 < GRID_WIDTH cfg" and "0 < GRID_HEIGHT cfg"
  shows "\<not> playing s \<Longrightarrow> count s < update_freq \<Longrightarrow>
         KEYDOWN K_SPACE \<notin> set (concat frames) \<Longrightarrow>
         \<exists>s'. main_loop cfg s frames = Inr (s', 0) \<and> \<not> playing s'"
proof (induction frames arbitrary: s)
  case Nil
  then show ?case by simp
next
  case (Cons evs frames)
  show ?case
  proof (cases "running s")
    case False
    with Cons.prems(1) show ?thesis by simp
  next
    case True
    have t: "main_tick cfg s = (s, False)"
      using Cons.prems by (intro main_tick_paused)
    from main_events_ok [OF assms, of evs s] obtain s2
      where e: "main_events cfg evs s = Inr s2" ..
    from Cons.prems(3) have n: "KEYDOWN K_SPACE \<notin> set evs"
      "KEYDOWN K_SPACE \<notin> set (concat frames)" by auto
    have p: "\<not> playing s2"
      using main_events_paused [OF n(1) Cons.prems(1) e] .
    have c: "count s2 < update_freq"
      using main_events_count [OF e] Cons.prems(2) by (auto simp: update_freq_def)
    from Cons.IH [OF p c n(2)] obtain s'
      where "main_loop cfg s2 frames = Inr (s', 0)" "\<not> playing s'" by blast
    with True show ?thesis
      by (simp add: main_iteration_def t e del: main_events.simps)
  qed
qed

section \<open>The rules of the transition\<close>

text \<open>
  C1, as stated: every coordinate with exactly three live neighbours is in the next
  generation. This fails outside the grid. On the 40 by 40 grid of \<^verbatim>\<open>main.py\<close>, with
  the column \<open>(0, 0), (0, 1), (0, 2)\<close> alive, the coordinate \<open>(-1, 1)\<close> has three live
  neighbours, and it is not in the next generation: \<^verbatim>\<open>get_neighbors\<close> never returns a
  coordinate with a negative component, so \<open>(-1, 1)\<close> is never a candidate.
\<close>

theorem birth_rule_counterexample:
  "live_count main_config [(0, 0), (0, 1), (0, 2)] (-1, 1) = 3 \<and>
   (-1, 1) \<notin> set (adjust_grid main_config [(0, 0), (0, 1), (0, 2)])"
  by code_simp

text \<open>
  C1, amended: a coordinate with exactly three live neighbours is in the next generation
  when it is alive already or lies in the range \<open>0 \<le> x \<le> GRID_WIDTH\<close>,
  \<open>0 \<le> y \<le> GRID_HEIGHT\<close> that \<^verbatim>\<open>get_neighbors\<close> admits.
\<close>

theorem birth_rule:
  assumes "live_count cfg ps c = 3"
    and "c \<in> set ps \<or>
         (0 \<le> fst c \<and> fst c \<le> GRID_WIDTH cfg \<and> 0 \<le> snd c \<and> snd c \<le> GRID_HEIGHT cfg)"
  shows "c \<in> set (adjust_grid cfg ps)"
proof (cases "c \<in> set ps")
  case True
  with assms(1) show ?thesis by (simp add: set_adjust_grid)
next
  case False
  with assms(2) have b: "0 \<le> fst c" "fst c \<le> GRID_WIDTH cfg" "0 \<le> snd c" "snd c \<le> GRID_HEIGHT cfg"
    by auto
  from assms(1) have "live_neighbors cfg ps c \<noteq> []"
    unfolding live_count_def by auto
  then obtain q where "q \<in> set (live_neighbors cfg ps c)"
    by (cases "live_neighbors cfg ps c") auto
  then have q: "q \<in> set ps" "q \<in> set (get_neighbors cfg c)"
    unfolding live_neighbors_def by auto
  from get_neighbors_sym [OF q(2) b] have "c \<in> set (get_neighbors cfg q)" .
  with q(1) have "c \<in> (\<Union>p\<in>set ps. set (get_neighbors cfg p))" by blast
  with assms(1) show ?thesis by (simp add: set_adjust_grid)
qed

text \<open>The birth rule on the blinker: the dead cell \<open>(2, 1)\<close> has three live neighbours.\<close>

theorem birth_rule_witness:
  "live_count main_config [(1, 2), (2, 2), (3, 2)] (2, 1) = 3 \<and>
   (2, 1) \<notin> set [(1, 2), (2, 2), (3, 2) :: coord] \<and>
   0 \<le> fst ((2, 1) :: coord) \<and> fst ((2, 1) :: coord) \<le> GRID_WIDTH main_config \<and>
   0 \<le> snd ((2, 1) :: coord) \<and> snd ((2, 1) :: coord) \<le> GRID_HEIGHT main_config \<and>
   (2, 1) \<in> set (adjust_grid main_config [(1, 2), (2, 2), (3, 2)])"
proof -
  have h1: "live_count main_config [(1, 2), (2, 2), (3, 2)] (2, 1) = 3"
    by code_simp
  have h2: "0 \<le> fst ((2, 1) :: coord) \<and> fst ((2, 1) :: coord) \<le> GRID_WIDTH main_config \<and>
   0 \<le> snd ((2, 1) :: coord) \<and> snd ((2, 1) :: coord) \<le> GRID_HEIGHT main_config"
    by code_simp
  have h3: "(2, 1) \<notin> set [(1, 2), (2, 2), (3, 2) :: coord]" by simp
  from birth_rule [OF h1 disjI2 [OF h2]] h1 h2 h3 show ?thesis by blast
qed

text \<open>
  C2: a live cell with exactly two or exactly three live neighbours is in the next
  generation.
\<close>

theorem survival_rule:
  assumes "c \<in> set ps"
    and "live_count cfg ps c = 2 \<or> live_count cfg ps c = 3"
  shows "c \<in> set (adjust_grid cfg ps)"
  using assms by (simp add: set_adjust_grid)

text \<open>The survival rule on the blinker: its middle cell has two live neighbours.\<close>

theorem survival_rule_witness:
  "(2, 2) \<in> set [(1, 2), (2, 2), (3, 2) :: coord] \<and>
   live_count main_config [(1, 2), (2, 2), (3, 2)] (2, 2) = 2 \<and>
   (2, 2) \<in> set (adjust_grid main_config [(1, 2), (2, 2), (3, 2)])"
proof -
  have h1: "(2, 2) \<in> set [(1, 2), (2, 2), (3, 2) :: coord]" by simp
  have h2: "live_count main_config [(1, 2), (2, 2), (3, 2)] (2, 2) = 2" by code_simp
  from survival_rule [OF h1 disjI1 [OF h2]] h1 h2 show ?thesis by blast
qed

text \<open>
  C3: a live cell whose number of live neighbours is neither two nor three is not in the
  next generation, and a dead cell whose number of live neighbours is not three is not in
  it either.
\<close>

theorem death_rule:
  "(c \<in> set ps \<and> live_count cfg ps c \<noteq> 2 \<and> live_count cfg ps c \<noteq> 3
      \<longrightarrow> c \<notin> set (adjust_grid cfg ps)) \<and>
   (c \<notin> set ps \<and> live_count cfg ps c \<noteq> 3 \<longrightarrow> c \<notin> set (adjust_grid cfg ps))"
  by (simp add: set_adjust_grid)

text \<open>
  The death rule on the blinker: the end \<open>(1, 2)\<close> has one live neighbour and dies, the
  dead cell \<open>(1, 1)\<close> has two and stays dead.
\<close>

theorem death_rule_witness:
  "(1, 2) \<in> set [(1, 2), (2, 2), (3, 2) :: coord] \<and>
   live_count main_config [(1, 2), (2, 2), (3, 2)] (1, 2) = 1 \<and>
   (1, 2) \<notin> set (adjust_grid main_config [(1, 2), (2, 2), (3, 2)]) \<and>
   (1, 1) \<notin> set [(1, 2), (2, 2), (3, 2) :: coord] \<and>
   live_count main_config [(1, 2), (2, 2), (3, 2)] (1, 1) = 2 \<and>
   (1, 1) \<notin> set (adjust_grid main_config [(1, 2), (2, 2), (3, 2)])"
proof -
  have a1: "(1, 2) \<in> set [(1, 2), (2, 2), (3, 2) :: coord]" by simp
  have a2: "live_count main_config [(1, 2), (2, 2), (3, 2)] (1, 2) = 1" by code_simp
  have b1: "(1, 1) \<notin> set [(1, 2), (2, 2), (3, 2) :: coord]" by simp
  have b2: "live_count main_config [(1, 2), (2, 2), (3, 2)] (1, 1) = 2" by code_simp
  from death_rule [of "(1, 2)" "[(1, 2), (2, 2), (3, 2)]" main_config] a1 a2
  have a3: "(1, 2) \<notin> set (adjust_grid main_config [(1, 2), (2, 2), (3, 2)])" by simp
  from death_rule [of "(1, 1)" "[(1, 2), (2, 2), (3, 2)]" main_config] b1 b2
  have b3: "(1, 1) \<notin> set (adjust_grid main_config [(1, 2), (2, 2), (3, 2)])" by simp
  from a1 a2 a3 b1 b2 b3 show ?thesis by blast
qed

text \<open>
  C10: the next generation lies within the live cells and their neighbours; so a cell of
  it that was not alive has its first component in \<open>[0, GRID_WIDTH]\<close> and its second in
  \<open>[0, GRID_HEIGHT]\<close>; and the empty set stays empty.
\<close>

theorem no_spontaneous_generation:
  "set (adjust_grid cfg ps) \<subseteq> set ps \<union> (\<Union>c\<in>set ps. set (get_neighbors cfg c)) \<and>
   (\<forall>p \<in> set (adjust_grid cfg ps). p \<notin> set ps \<longrightarrow>
      0 \<le> fst p \<and> fst p \<le> GRID_WIDTH cfg \<and> 0 \<le> snd p \<and> snd p \<le> GRID_HEIGHT cfg) \<and>
   adjust_grid cfg [] = []"
proof (intro conjI ballI impI)
  show sub: "set (adjust_grid cfg ps) \<subseteq> set ps \<union> (\<Union>c\<in>set ps. set (get_neighbors cfg c))"
    unfolding set_adjust_grid by blast
  show "adjust_grid cfg [] = []" by (rule adjust_grid_Nil)
  fix p
  assume "p \<in> set (adjust_grid cfg ps)" and "p \<notin> set ps"
  with sub obtain c where "p \<in> set (get_neighbors cfg c)" by blast
  from get_neighbors_bounds [OF this]
  show "0 \<le> fst p" "fst p \<le> GRID_WIDTH cfg" "0 \<le> snd p" "snd p \<le> GRID_HEIGHT cfg"
    by simp_all
qed

text \<open>On the blinker, the new cell \<open>(2, 1)\<close> is a neighbour of a live cell and in range.\<close>

theorem no_spontaneous_generation_witness:
  "(2, 1) \<in> set (adjust_grid main_config [(1, 2), (2, 2), (3, 2)]) \<and>
   (2, 1) \<notin> set [(1, 2), (2, 2), (3, 2) :: coord] \<and>
   (2, 1) \<in> (\<Union>c\<in>set [(1, 2), (2, 2), (3, 2)]. set (get_neighbors main_config c)) \<and>
   0 \<le> fst ((2, 1) :: coord) \<and> fst ((2, 1) :: coord) \<le> GRID_WIDTH main_config \<and>
   0 \<le> snd ((2, 1) :: coord) \<and> snd ((2, 1) :: coord) \<le> GRID_HEIGHT main_config"
proof -
  have a: "(2, 1) \<in> set (adjust_grid main_config [(1, 2), (2, 2), (3, 2)])" by code_simp
  have b: "(2, 1) \<notin> set [(1, 2), (2, 2), (3, 2) :: coord]" by simp
  from no_spontaneous_generation [of main_config "[(1, 2), (2, 2), (3, 2)]"] a b
  show ?thesis by blast
qed

text \<open>
  C6: on a grid of at least five cells each way, the horizontal blinker
  \<open>{(1, 2), (2, 2), (3, 2)}\<close> becomes the vertical one \<open>{(2, 1), (2, 2), (2, 3)}\<close>, and
  the vertical one becomes the horizontal one, in whatever order the set is visited.
\<close>

theorem blinker_period_2:
  assumes "5 \<le> GRID_WIDTH cfg" and "5 \<le> GRID_HEIGHT cfg"
  shows "(set ps = {(1, 2), (2, 2), (3, 2)} \<longrightarrow>
            set (adjust_grid cfg ps) = {(2, 1), (2, 2), (2, 3)}) \<and>
         (set ps = {(2, 1), (2, 2), (2, 3)} \<longrightarrow>
            set (adjust_grid cfg ps) = {(1, 2), (2, 2), (3, 2)})"
proof (intro conjI impI)
  assume "set ps = {(1, 2), (2, 2), (3, 2)}"
  then have "set ps = set [(1, 2), (2, 2), (3, 2)]" by simp
  from set_adjust_grid_cong [OF this, of cfg]
  show "set (adjust_grid cfg ps) = {(2, 1), (2, 2), (2, 3)}"
    unfolding blinker_horizontal [OF assms] by auto
next
  assume "set ps = {(2, 1), (2, 2), (2, 3)}"
  then have "set ps = set [(2, 1), (2, 2), (2, 3)]" by simp
  from set_adjust_grid_cong [OF this, of cfg]
  show "set (adjust_grid cfg ps) = {(1, 2), (2, 2), (3, 2)}"
    unfolding blinker_vertical [OF assms] by auto
qed

text \<open>The blinker on the 40 by 40 grid of \<^verbatim>\<open>main.py\<close>.\<close>

theorem blinker_period_2_witness:
  "5 \<le> GRID_WIDTH main_config \<and> 5 \<le> GRID_HEIGHT main_config \<and>
   set (adjust_grid main_config [(1, 2), (2, 2), (3, 2)]) = {(2, 1), (2, 2), (2, 3)} \<and>
   set (adjust_grid main_config [(2, 1), (2, 2), (2, 3)]) = {(1, 2), (2, 2), (3, 2)}"
proof -
  have w: "5 \<le> GRID_WIDTH main_config" by (simp add: GRID_WIDTH_def main_config_def)
  have h: "5 \<le> GRID_HEIGHT main_config" by (simp add: GRID_HEIGHT_def main_config_def)
  have a: "set [(1, 2), (2, 2), (3, 2)] = {(1, 2), (2, 2), (3, 2) :: coord}" by simp
  have b: "set [(2, 1), (2, 2), (2, 3)] = {(2, 1), (2, 2), (2, 3) :: coord}" by simp
  from blinker_period_2 [OF w h, of "[(1, 2), (2, 2), (3, 2)]"] a
  have c: "set (adjust_grid main_config [(1, 2), (2, 2), (3, 2)]) = {(2, 1), (2, 2), (2, 3)}"
    by blast
  from blinker_period_2 [OF w h, of "[(2, 1), (2, 2), (2, 3)]"] b
  have d: "set (adjust_grid main_config [(2, 1), (2, 2), (2, 3)]) = {(1, 2), (2, 2), (3, 2)}"
    by blast
  from w h c d show ?thesis by blast
qed

section \<open>The neighbours\<close>

text \<open>
  C4: \<^verbatim>\<open>get_neighbors((x, y))\<close> returns, each once, exactly the coordinates
  \<open>(x + dx, y + dy)\<close> with \<open>dx\<close> and \<open>dy\<close> in \<open>{-1, 0, 1}\<close>, not both zero, and
  \<open>0 \<le> x + dx \<le> GRID_WIDTH\<close>, \<open>0 \<le> y + dy \<le> GRID_HEIGHT\<close>, the upper bounds
  included; for \<open>0 < x < GRID_WIDTH\<close> and \<open>0 < y < GRID_HEIGHT\<close> these are all eight.
\<close>

theorem get_neighbors_contract:
  "set (get_neighbors cfg (x, y)) =
     {(x + dx, y + dy) | dx dy.
        dx \<in> {-1, 0, 1} \<and> dy \<in> {-1, 0, 1} \<and> (dx, dy) \<noteq> (0, 0) \<and>
        0 \<le> x + dx \<and> x + dx \<le> GRID_WIDTH cfg \<and>
        0 \<le> y + dy \<and> y + dy \<le> GRID_HEIGHT cfg} \<and>
   distinct (get_neighbors cfg (x, y)) \<and>
   (0 < x \<and> x < GRID_WIDTH cfg \<and> 0 < y \<and> y < GRID_HEIGHT cfg \<longrightarrow>
      get_neighbors cfg (x, y) =
        [(x - 1, y - 1), (x - 1, y), (x - 1, y + 1), (x, y - 1), (x, y + 1),
         (x + 1, y - 1), (x + 1, y), (x + 1, y + 1)])"
  using set_get_neighbors [of cfg x y] distinct_get_neighbors [of cfg x y]
    get_neighbors_interior [of x cfg y]
  by blast

text \<open>
  On the 40 by 40 grid the cell \<open>(39, 39)\<close>, the last one drawn, has eight neighbours,
  five of them with a component equal to 40.
\<close>

theorem get_neighbors_contract_witness:
  "(0::int) < 39 \<and> 39 < GRID_WIDTH main_config \<and> 39 < GRID_HEIGHT main_config \<and>
   get_neighbors main_config (39, 39) =
     [(38, 38), (38, 39), (38, 40), (39, 38), (39, 40), (40, 38), (40, 39), (40, 40)]"
proof -
  have w: "39 < GRID_WIDTH main_config" by (simp add: GRID_WIDTH_def main_config_def)
  have h: "39 < GRID_HEIGHT main_config" by (simp add: GRID_HEIGHT_def main_config_def)
  have p: "(0::int) < 39" by simp
  from get_neighbors_contract [of main_config 39 39] p w h
  have "get_neighbors main_config (39, 39) =
     [(39 - 1, 39 - 1), (39 - 1, 39), (39 - 1, 39 + 1), (39, 39 - 1), (39, 39 + 1),
      (39 + 1, 39 - 1), (39 + 1, 39), (39 + 1, 39 + 1)]"
    by blast
  then have "get_neighbors main_config (39, 39) =
     [(38, 38), (38, 39), (38, 40), (39, 38), (39, 40), (40, 38), (40, 39), (40, 40)]"
    by simp
  with p w h show ?thesis by blast
qed

section \<open>The toggle\<close>

text \<open>
  C7: toggling a coordinate twice gives back a set with the same members, for the
  coordinate itself and for every other one; a single toggle changes the membership of the
  coordinate.
\<close>

theorem toggle_self_inverse:
  "set (toggle c (toggle c ps)) = set ps \<and>
   (c \<in> set (toggle c (toggle c ps)) \<longleftrightarrow> c \<in> set ps) \<and>
   (c \<in> set (toggle c ps) \<longleftrightarrow> c \<notin> set ps)"
  by (auto simp: toggle_def set_set_add)

text \<open>Two presses on a live cell: the first removes it, the second brings it back.\<close>

theorem toggle_self_inverse_witness:
  "toggle (2, 2) [(1, 2), (2, 2)] = [(1, 2)] \<and>
   set (toggle (2, 2) (toggle (2, 2) [(1, 2), (2, 2)])) = set [(1, 2), (2, 2)]"
proof -
  have "toggle (2, 2) [(1, 2), (2, 2)] = [(1, 2)]" by (simp add: toggle_def)
  with toggle_self_inverse [of "(2, 2)" "[(1, 2), (2, 2)]"] show ?thesis by blast
qed

section \<open>Random positions\<close>

text \<open>
  C8: on a grid with at least one column and one row, for every \<open>num \<ge> 0\<close> and every
  outcome of the draws, \<^verbatim>\<open>gen(num)\<close> returns a set of at most \<open>num\<close> coordinates
  \<open>(a, b)\<close>, each with \<open>0 \<le> a < GRID_HEIGHT\<close> and \<open>0 \<le> b < GRID_WIDTH\<close>; and the
  \<^verbatim>\<open>g\<close> key replaces the positions by \<^verbatim>\<open>gen(n * GRID_WIDTH)\<close> for a drawn \<open>n\<close> with
  \<open>4 \<le> n < 10\<close>. How likely each outcome is lies outside the model.
\<close>

theorem gen_bounds:
  assumes "0 < GRID_WIDTH cfg" and "0 < GRID_HEIGHT cfg" and "0 \<le> num"
  shows "(\<exists>ps g'. gen cfg num g = Inr (ps, g') \<and> distinct ps \<and>
            int (length ps) \<le> num \<and> int (card (set ps)) \<le> num \<and>
            (\<forall>(a, b) \<in> set ps. 0 \<le> a \<and> a < GRID_HEIGHT cfg \<and> 0 \<le> b \<and> b < GRID_WIDTH cfg)) \<and>
         (\<exists>n g1 ps g2. randrange 4 10 (rng_state s) = Inr (n, g1) \<and> 4 \<le> n \<and> n < 10 \<and>
            gen cfg (n * GRID_WIDTH cfg) g1 = Inr (ps, g2) \<and>
            main_event cfg (KEYDOWN K_g) s = Inr (s\<lparr>positions := ps, rng_state := g2\<rparr>))"
proof
  from gen_ok [OF assms(1,2), of num g] obtain ps g'
    where r: "gen cfg num g = Inr (ps, g')" "distinct ps" "length ps \<le> nat num"
      "\<forall>(a, b) \<in> set ps. 0 \<le> a \<and> a < GRID_HEIGHT cfg \<and> 0 \<le> b \<and> b < GRID_WIDTH cfg"
    by blast
  have "int (length ps) \<le> num" using r(3) assms(3) by simp
  moreover have "int (card (set ps)) \<le> num"
    using r(3) assms(3) card_length [of ps] by simp
  ultimately show "\<exists>ps g'. gen cfg num g = Inr (ps, g') \<and> distinct ps \<and>
            int (length ps) \<le> num \<and> int (card (set ps)) \<le> num \<and>
            (\<forall>(a, b) \<in> set ps. 0 \<le> a \<and> a < GRID_HEIGHT cfg \<and> 0 \<le> b \<and> b < GRID_WIDTH cfg)"
    using r(1,2,4) by blast
next
  have "(4::int) < 10" by simp
  from randrange_ok [OF this, of "rng_state s"] obtain n g1
    where n: "randrange 4 10 (rng_state s) = Inr (n, g1)" "4 \<le> n" "n < 10"
    by blast
  from gen_ok [OF assms(1,2), of "n * GRID_WIDTH cfg" g1] obtain ps g2
    where r: "gen cfg (n * GRID_WIDTH cfg) g1 = Inr (ps, g2)"
    by blast
  have "main_event cfg (KEYDOWN K_g) s = Inr (s\<lparr>positions := ps, rng_state := g2\<rparr>)"
    by (simp add: main_event_def n(1) r)
  with n r show "\<exists>n g1 ps g2. randrange 4 10 (rng_state s) = Inr (n, g1) \<and> 4 \<le> n \<and> n < 10 \<and>
            gen cfg (n * GRID_WIDTH cfg) g1 = Inr (ps, g2) \<and>
            main_event cfg (KEYDOWN K_g) s = Inr (s\<lparr>positions := ps, rng_state := g2\<rparr>)"
    by blast
qed

text \<open>
  Three rounds on the grid of \<^verbatim>\<open>main.py\<close> that all draw the pair \<open>(0, 1)\<close>: the set
  has one member.
\<close>

theorem gen_bounds_witness:
  "0 < GRID_WIDTH main_config \<and> 0 < GRID_HEIGHT main_config \<and> (0::int) \<le> 3 \<and>
   map_sum id fst (gen main_config 3 (\<lambda>i. i mod 2)) = Inr [(0, 1)] \<and>
   (\<exists>ps g'. gen main_config 3 (\<lambda>i. i mod 2) = Inr (ps, g') \<and> distinct ps \<and>
      int (length ps) \<le> 3 \<and> int (card (set ps)) \<le> 3 \<and>
      (\<forall>(a, b) \<in> set ps.
         0 \<le> a \<and> a < GRID_HEIGHT main_config \<and> 0 \<le> b \<and> b < GRID_WIDTH main_config)) \<and>
   (\<exists>n g1 ps g2.
      randrange 4 10 (rng_state (initial_state (\<lambda>i. i mod 2))) = Inr (n, g1) \<and>
      4 \<le> n \<and> n < 10 \<and>
      gen main_config (n * GRID_WIDTH main_config) g1 = Inr (ps, g2) \<and>
      main_event main_config (KEYDOWN K_g) (initial_state (\<lambda>i. i mod 2)) =
        Inr ((initial_state (\<lambda>i. i mod 2))\<lparr>positions := ps, rng_state := g2\<rparr>))"
proof -
  have w: "0 < GRID_WIDTH main_config" by (simp add: GRID_WIDTH_def main_config_def)
  have h: "0 < GRID_HEIGHT main_config" by (simp add: GRID_HEIGHT_def main_config_def)
  have n: "(0::int) \<le> 3" by simp
  have e: "map_sum id fst (gen main_config 3 (\<lambda>i. i mod 2)) = Inr [(0, 1)]"
    by code_simp
  from gen_bounds [OF w h n, of "\<lambda>i. i mod 2" "initial_state (\<lambda>i. i mod 2)"] w h n e
  show ?thesis by blast
qed

section \<open>The clock\<close>

text \<open>
  C5, as stated: from a paused state, fewer than \<^verbatim>\<open>update_freq\<close> frames never call
  \<^verbatim>\<open>adjust_grid\<close>. This fails when the counter is not at zero: a pause keeps the
  counter, and the space key starts it again where it stood. On the grid of
  \<^verbatim>\<open>main.py\<close>, paused with the counter at 119, a frame with the space key and one quiet
  frame make one call. The paused state is one the loop reaches from its start: a space
  key, 118 quiet frames and a second space key, with no call on the way.
\<close>

theorem clock_cadence_counterexample:
  "\<not> playing \<lparr>running = True, playing = False, count = 119, positions = [],
       rng_state = \<lambda>i. i\<rparr> \<and>
   int (length [[KEYDOWN K_SPACE], []]) < update_freq \<and>
   main_loop main_config
       \<lparr>running = True, playing = False, count = 119, positions = [], rng_state = \<lambda>i. i\<rparr>
       [[KEYDOWN K_SPACE], []] =
     Inr (\<lparr>running = True, playing = True, count = 0, positions = [], rng_state = \<lambda>i. i\<rparr>, 1) \<and>
   main_loop main_config (initial_state (\<lambda>i. i))
       ([KEYDOWN K_SPACE] # replicate 118 [] @ [[KEYDOWN K_SPACE]]) =
     Inr (\<lparr>running = True, playing = False, count = 119, positions = [],
            rng_state = \<lambda>i. i\<rparr>, 0)"
proof -
  let ?p = "\<lparr>running = True, playing = False, count = 119, positions = [],
       rng_state = \<lambda>i. i :: nat\<rparr>"
  let ?s1 = "\<lparr>running = True, playing = True, count = 0, positions = [],
       rng_state = \<lambda>i. i :: nat\<rparr>"
  have a: "\<not> playing ?p" by simp
  have b: "int (length [[KEYDOWN K_SPACE], [] :: event list]) < update_freq"
    by (simp add: update_freq_def)
  have c: "main_loop main_config ?p [[KEYDOWN K_SPACE], []] = Inr (?s1, 1)"
    by (simp add: main_iteration_def main_tick_def main_event_def update_freq_def
        adjust_grid_Nil)
  have d1: "main_loop main_config ?s1 (replicate 118 []) = Inr (?s1\<lparr>count := 118\<rparr>, 0)"
    using main_loop_counting [of ?s1 118 main_config] by (simp add: update_freq_def)
  have d3: "main_loop main_config ?s1 (replicate 118 [] @ [[KEYDOWN K_SPACE]]) = Inr (?p, 0)"
    unfolding main_loop_append d1
    by (simp add: main_iteration_def main_tick_def main_event_def update_freq_def)
  have d: "main_loop main_config (initial_state (\<lambda>i. i))
       ([KEYDOWN K_SPACE] # replicate 118 [] @ [[KEYDOWN K_SPACE]]) = Inr (?p, 0)"
    by (simp add: initial_state_def main_iteration_def main_tick_def main_event_def
        update_freq_def d3 del: replicate.simps)
  from a b c d show ?thesis by blast
qed

text \<open>
  C5, amended, with one iteration of the main loop as a step on the state. Paused, with
  the counter below \<^verbatim>\<open>update_freq\<close>: frames without events make no call and change
  nothing, however many they are; frames whose events do not include the space key make no
  call and leave the loop paused, however many they are; and, with any events at all,
  \<open>N\<close> frames make no call when the counter plus \<open>N\<close> is at most \<^verbatim>\<open>update_freq\<close>, which
  from the counter at zero, as \<^verbatim>\<open>main\<close> starts, holds for every \<open>N\<close> below
  \<^verbatim>\<open>update_freq\<close>. Running: from the counter at zero and with no events,
  \<^verbatim>\<open>update_freq - 1\<close> frames make no call and leave the counter at \<^verbatim>\<open>update_freq - 1\<close>,
  and \<^verbatim>\<open>update_freq\<close> frames make exactly one call, which replaces the positions, and
  leave the counter at zero.
\<close>

theorem clock_cadence:
  "(\<not> playing s \<and> count s < update_freq \<longrightarrow>
      main_loop cfg s (replicate N []) = Inr (s, 0)) \<and>
   (0 < GRID_WIDTH cfg \<and> 0 < GRID_HEIGHT cfg \<and> \<not> playing s \<and> count s < update_freq \<and>
    KEYDOWN K_SPACE \<notin> set (concat frames) \<longrightarrow>
      (\<exists>s'. main_loop cfg s frames = Inr (s', 0) \<and> \<not> playing s')) \<and>
   (0 < GRID_WIDTH cfg \<and> 0 < GRID_HEIGHT cfg \<and> \<not> playing s \<and> 0 \<le> count s \<and>
    count s + int (length frames) \<le> update_freq \<longrightarrow>
      (\<exists>s'. main_loop cfg s frames = Inr (s', 0))) \<and>
   (running s \<and> playing s \<and> count s = 0 \<longrightarrow>
      main_loop cfg s (replicate (nat update_freq - 1) []) =
        Inr (s\<lparr>count := update_freq - 1\<rparr>, 0) \<and>
      main_loop cfg s (replicate (nat update_freq) []) =
        Inr (s\<lparr>count := 0, positions := adjust_grid cfg (positions s)\<rparr>, 1))"
proof (intro conjI impI)
  assume "\<not> playing s \<and> count s < update_freq"
  then show "main_loop cfg s (replicate N []) = Inr (s, 0)"
    by (simp add: main_loop_paused)
next
  assume a: "0 < GRID_WIDTH cfg \<and> 0 < GRID_HEIGHT cfg \<and> \<not> playing s \<and>
    count s < update_freq \<and> KEYDOWN K_SPACE \<notin> set (concat frames)"
  then show "\<exists>s'. main_loop cfg s frames = Inr (s', 0) \<and> \<not> playing s'"
    by (intro main_loop_stays_paused) simp_all
next
  assume a: "0 < GRID_WIDTH cfg \<and> 0 < GRID_HEIGHT cfg \<and> \<not> playing s \<and> 0 \<le> count s \<and>
    count s + int (length frames) \<le> update_freq"
  then have "0 \<le> count s"
    and "if playing s then count s + int (length frames) < update_freq
         else count s + int (length frames) \<le> update_freq"
    by simp_all
  with a show "\<exists>s'. main_loop cfg s frames = Inr (s', 0)"
    by (intro main_loop_no_call) simp_all
next
  assume a: "running s \<and> playing s \<and> count s = 0"
  then have "main_loop cfg s (replicate (nat update_freq - 1) []) =
        Inr (s\<lparr>count := count s + int (nat update_freq - 1)\<rparr>, 0)"
    by (intro main_loop_counting) (simp_all add: update_freq_def)
  with a show "main_loop cfg s (replicate (nat update_freq - 1) []) =
        Inr (s\<lparr>count := update_freq - 1\<rparr>, 0)"
    by (simp add: update_freq_def)
  from a show "main_loop cfg s (replicate (nat update_freq) []) =
        Inr (s\<lparr>count := 0, positions := adjust_grid cfg (positions s)\<rparr>, 1)"
    by (intro main_loop_advance) simp_all
qed

text \<open>
  The clock of \<^verbatim>\<open>main.py\<close>: 119 quiet frames from the start; paused at 119, frames
  with a mouse press and the \<^verbatim>\<open>g\<close> key; paused at 100, a space key and 19 quiet frames;
  from the start, a space key and 118 frames with a mouse press; and 120 quiet frames while
  playing.
\<close>

theorem clock_cadence_witness:
  "\<not> playing (initial_state (\<lambda>i. i)) \<and> count (initial_state (\<lambda>i. i)) < update_freq \<and>
   main_loop main_config (initial_state (\<lambda>i. i)) (replicate 119 []) =
     Inr (initial_state (\<lambda>i. i), 0) \<and>
   0 < GRID_WIDTH main_config \<and> 0 < GRID_HEIGHT main_config \<and>
   \<not> playing \<lparr>running = True, playing = False, count = 119, positions = [],
       rng_state = \<lambda>i. i\<rparr> \<and>
   count \<lparr>running = True, playing = False, count = 119, positions = [],
       rng_state = \<lambda>i. i\<rparr> < update_freq \<and>
   KEYDOWN K_SPACE \<notin> set (concat [[MOUSEBUTTONDOWN 45 45], [KEYDOWN K_g], []]) \<and>
   (\<exists>s'. main_loop main_config
            \<lparr>running = True, playing = False, count = 119, positions = [],
               rng_state = \<lambda>i. i\<rparr>
            [[MOUSEBUTTONDOWN 45 45], [KEYDOWN K_g], []] = Inr (s', 0) \<and> \<not> playing s') \<and>
   0 \<le> count \<lparr>running = True, playing = False, count = 100, positions = [],
       rng_state = \<lambda>i. i\<rparr> \<and>
   count \<lparr>running = True, playing = False, count = 100, positions = [],
       rng_state = \<lambda>i. i\<rparr> + int (length ([KEYDOWN K_SPACE] # replicate 19 []))
     \<le> update_freq \<and>
   (\<exists>s'. main_loop main_config
            \<lparr>running = True, playing = False, count = 100, positions = [],
               rng_state = \<lambda>i. i\<rparr>
            ([KEYDOWN K_SPACE] # replicate 19 []) = Inr (s', 0)) \<and>
   count (initial_state (\<lambda>i. i)) +
     int (length ([KEYDOWN K_SPACE] # replicate 118 [MOUSEBUTTONDOWN 45 45])) \<le> update_freq \<and>
   (\<exists>s'. main_loop main_config (initial_state (\<lambda>i. i))
            ([KEYDOWN K_SPACE] # replicate 118 [MOUSEBUTTONDOWN 45 45]) = Inr (s', 0)) \<and>
   running ((initial_state (\<lambda>i. i))\<lparr>playing := True\<rparr>) \<and>
   playing ((initial_state (\<lambda>i. i))\<lparr>playing := True\<rparr>) \<and>
   count ((initial_state (\<lambda>i. i))\<lparr>playing := True\<rparr>) = 0 \<and>
   main_loop main_config ((initial_state (\<lambda>i. i))\<lparr>playing := True\<rparr>)
       (replicate (nat update_freq) []) =
     Inr ((initial_state (\<lambda>i. i))\<lparr>playing := True, count := 0,
            positions := adjust_grid main_config
              (positions ((initial_state (\<lambda>i. i))\<lparr>playing := True\<rparr>))\<rparr>, 1)"
proof -
  let ?s0 = "initial_state (\<lambda>i. i)"
  let ?s1 = "?s0\<lparr>playing := True\<rparr>"
  let ?p = "\<lparr>running = True, playing = False, count = 119, positions = [],
       rng_state = \<lambda>i. i :: nat\<rparr>"
  let ?q = "\<lparr>running = True, playing = False, count = 100, positions = [],
       rng_state = \<lambda>i. i :: nat\<rparr>"
  let ?quiet = "[[MOUSEBUTTONDOWN 45 45], [KEYDOWN K_g], []]"
  let ?late = "[KEYDOWN K_SPACE] # replicate 19 ([] :: event list)"
  let ?busy = "[KEYDOWN K_SPACE] # replicate 118 [MOUSEBUTTONDOWN 45 45]"
  have w: "0 < GRID_WIDTH main_config" by (simp add: GRID_WIDTH_def main_config_def)
  have h: "0 < GRID_HEIGHT main_config" by (simp add: GRID_HEIGHT_def main_config_def)
  have a: "\<not> playing ?s0" "count ?s0 < update_freq" "0 \<le> count ?s0"
    "count ?s0 + int (length ?busy) \<le> update_freq"
    by (simp_all add: initial_state_def update_freq_def)
  have p: "\<not> playing ?p" "count ?p < update_freq" "KEYDOWN K_SPACE \<notin> set (concat ?quiet)"
    by (simp_all add: update_freq_def)
  have q: "\<not> playing ?q" "0 \<le> count ?q" "count ?q + int (length ?late) \<le> update_freq"
    by (simp_all add: update_freq_def)
  have b: "running ?s1" "playing ?s1" "count ?s1 = 0"
    by (simp_all add: initial_state_def)
  from clock_cadence [of ?s0 main_config 119 ?busy] a w h
  have c: "main_loop main_config ?s0 (replicate 119 []) = Inr (?s0, 0)"
    "\<exists>s'. main_loop main_config ?s0 ?busy = Inr (s', 0)"
    by blast+
  from clock_cadence [of ?p main_config 0 ?quiet] p w h
  have e: "\<exists>s'. main_loop main_config ?p ?quiet = Inr (s', 0) \<and> \<not> playing s'"
    by blast
  from clock_cadence [of ?q main_config 0 ?late] q w h
  have f: "\<exists>s'. main_loop main_config ?q ?late = Inr (s', 0)"
    by blast
  from clock_cadence [of ?s1 main_config 0 "[]"] b
  have d: "main_loop main_config ?s1 (replicate (nat update_freq) []) =
     Inr (?s1\<lparr>count := 0, positions := adjust_grid main_config (positions ?s1)\<rparr>, 1)"
    by blast
  show ?thesis
    using a(1,2,4) w h p q(2,3) b c d e f by (simp del: replicate.simps)
qed

text \<open>
  C9: if \<open>0 \<le> count < update_freq\<close> holds at the start of an iteration, it holds at its
  end, whatever the events of the frame are; on a grid with at least one column and one
  row the iteration does reach its end; and the clear key sets the counter to zero, pauses
  and empties the positions, from every state.
\<close>

theorem tick_counter_invariant:
  "(0 \<le> count s \<and> count s < update_freq \<and> main_iteration cfg s evs = Inr (s', called) \<longrightarrow>
      0 \<le> count s' \<and> count s' < update_freq) \<and>
   (0 < GRID_WIDTH cfg \<and> 0 < GRID_HEIGHT cfg \<longrightarrow> (\<exists>r. main_iteration cfg s evs = Inr r)) \<and>
   (\<exists>t. main_event cfg (KEYDOWN K_c) s = Inr t \<and> count t = 0 \<and> \<not> playing t \<and>
        positions t = [])"
proof (intro conjI impI)
  assume a: "0 \<le> count s \<and> count s < update_freq \<and> main_iteration cfg s evs = Inr (s', called)"
  then have "0 \<le> count s" "count s < update_freq" "main_iteration cfg s evs = Inr (s', called)"
    by simp_all
  from main_iteration_count [OF this]
  show "0 \<le> count s'" "count s' < update_freq" by simp_all
next
  assume "0 < GRID_WIDTH cfg \<and> 0 < GRID_HEIGHT cfg"
  then show "\<exists>r. main_iteration cfg s evs = Inr r"
    by (intro main_iteration_ok) simp_all
next
  show "\<exists>t. main_event cfg (KEYDOWN K_c) s = Inr t \<and> count t = 0 \<and> \<not> playing t \<and>
        positions t = []"
    by (simp add: main_event_def)
qed

text \<open>
  Two iterations while playing: from 119 the counter restarts at zero, from 57 it goes to
  58; and an iteration with the \<^verbatim>\<open>g\<close> and \<^verbatim>\<open>c\<close> keys reaches its end.
\<close>

theorem tick_counter_invariant_witness:
  "(0::int) \<le> 119 \<and> (119::int) < update_freq \<and>
   main_iteration main_config
     \<lparr>running = True, playing = True, count = 119, positions = [], rng_state = \<lambda>i. i\<rparr>
     [KEYDOWN K_SPACE, MOUSEBUTTONDOWN 45 45] =
     Inr (\<lparr>running = True, playing = False, count = 0, positions = [(2, 2)],
            rng_state = \<lambda>i. i\<rparr>, True) \<and>
   main_iteration main_config
     \<lparr>running = True, playing = True, count = 57, positions = [], rng_state = \<lambda>i. i\<rparr>
     [MOUSEBUTTONDOWN 45 45] =
     Inr (\<lparr>running = True, playing = True, count = 58, positions = [(2, 2)],
            rng_state = \<lambda>i. i\<rparr>, False) \<and>
   (58::int) < update_freq \<and>
   0 < GRID_WIDTH main_config \<and> 0 < GRID_HEIGHT main_config \<and>
   (\<exists>r. main_iteration main_config
     \<lparr>running = True, playing = True, count = 119, positions = [], rng_state = \<lambda>i. i\<rparr>
     [KEYDOWN K_g, KEYDOWN K_c] = Inr r)"
proof -
  let ?s = "\<lparr>running = True, playing = True, count = 119, positions = [], rng_state = \<lambda>i. i\<rparr>"
  let ?s' = "\<lparr>running = True, playing = False, count = 0, positions = [(2, 2)],
            rng_state = \<lambda>i. i\<rparr>"
  let ?u = "\<lparr>running = True, playing = True, count = 57, positions = [], rng_state = \<lambda>i. i\<rparr>"
  let ?u' = "\<lparr>running = True, playing = True, count = 58, positions = [(2, 2)],
            rng_state = \<lambda>i. i :: nat\<rparr>"
  have w: "0 < GRID_WIDTH main_config" by (simp add: GRID_WIDTH_def main_config_def)
  have h: "0 < GRID_HEIGHT main_config" by (simp add: GRID_HEIGHT_def main_config_def)
  have a: "0 \<le> count ?s" "count ?s < update_freq" "0 \<le> count ?u" "count ?u < update_freq"
    by (simp_all add: update_freq_def)
  have i: "main_iteration main_config ?s [KEYDOWN K_SPACE, MOUSEBUTTONDOWN 45 45] = Inr (?s', True)"
    by (simp add: main_iteration_def main_tick_def main_event_def update_freq_def
        main_config_def toggle_def set_add_def adjust_grid_Nil)
  have j: "main_iteration main_config ?u [MOUSEBUTTONDOWN 45 45] = Inr (?u', False)"
    by (simp add: main_iteration_def main_tick_def main_event_def update_freq_def
        main_config_def toggle_def set_add_def)
  from tick_counter_invariant [of ?u main_config "[MOUSEBUTTONDOWN 45 45]" ?u' False] a j
  have k: "(58::int) < update_freq" by simp
  from tick_counter_invariant [of ?s main_config "[KEYDOWN K_g, KEYDOWN K_c]"] w h
  have r: "\<exists>r. main_iteration main_config ?s [KEYDOWN K_g, KEYDOWN K_c] = Inr r" by blast
  from a i j k w h r show ?thesis by simp
qed

end
